theory Spec2Isabelle
  imports Main "HOL-Library.Word"
begin

section \<open>Response encoding of the route service: OpenLR references and pbf field selection\<close>

text \<open>
  The development follows the serializer part of the source file (lines 285 to 551):
  \<open>road_class_to_fow\<close>, \<open>openlr_edges\<close>, \<open>route_references\<close>, \<open>openlr\<close> and
  \<open>serializePbf\<close>. Protocol-buffer messages are records; a sub-message that a message
  may or may not hold (\<open>has_edge\<close>, \<open>has_info\<close>, \<open>has_pbf_field_selector\<close>) is an
  \<open>option\<close>. A C++ exception and an access outside a container are values of the type
  \<open>error\<close>; \<open>bad_alloc\<close> is an exception that a library call may raise.
\<close>

subsection \<open>Errors\<close>

datatype error =
    logic_error string
  | index_out_of_bounds
  | bad_alloc

subsection \<open>Trip leg data\<close>

text \<open>
  Modelled from the spec: the declaration of the road-class enumeration is not part of
  the sources. The spec describes it as an ordinal scale, 0 the highest class, with the
  motorway class on top; an edge holds the ordinal itself.
\<close>

type_synonym RoadClass = nat

definition kMotorway :: RoadClass where
  "kMotorway = 0"

text \<open>
  Modelled from the spec: the uses of an edge (ramp, turn-channel, living-street,
  service-road, normal, and others). The source names \<open>kRampUse\<close> and
  \<open>kTurnChannelUse\<close>; \<open>kOtherUse n\<close> stands for any use that is not listed.
\<close>

datatype Use =
    kRoadUse
  | kRampUse
  | kTurnChannelUse
  | kLivingStreetUse
  | kServiceRoadUse
  | kOtherUse nat

text \<open>
  Modelled from the spec: traversability is one of none, forward, backward, both. The
  source names \<open>kNone\<close> and \<open>kBoth\<close>.
\<close>

datatype Traversability = kNone | kForward | kBackward | kBoth

datatype FormOfWay =
    UNDEFINED
  | MOTORWAY
  | MULTIPLE_CARRIAGEWAY
  | SINGLE_CARRIAGEWAY
  | ROUNDABOUT
  | TRAFFICSQUARE
  | SLIPROAD
  | OTHER

text \<open>
  Floating-point values (coordinates, headings, lengths) have the type \<open>'a\<close>; the
  functions below use its multiplication and its numerals and assume no law of them.
\<close>

record 'a Edge =
  road_class :: RoadClass
  use :: Use
  roundabout :: bool
  traversability :: Traversability
  length_km :: 'a
  begin_shape_index :: nat
  end_shape_index :: nat

subsection \<open>Form of way\<close>

definition road_class_to_fow :: "'a Edge \<Rightarrow> FormOfWay" where
  "road_class_to_fow edge =
     (if roundabout edge then ROUNDABOUT
      else if use edge = kRampUse \<or> use edge = kTurnChannelUse then SLIPROAD
      else if road_class edge = kMotorway then MOTORWAY
      else if traversability edge = kBoth then MULTIPLE_CARRIAGEWAY
      else if traversability edge \<noteq> kNone then SINGLE_CARRIAGEWAY
      else OTHER)"

subsection \<open>Location reference points\<close>

record 'a PointLL =
  lng :: 'a
  lat :: 'a

text \<open>
  Modelled from the spec: the location reference point of \<open>baldr/openlr.h\<close>, whose
  declaration is not part of the sources. A point is represented by the arguments its
  constructor receives: coordinates, bearing, functional road class, form of way, the
  previous point of the chain if there is one, and the distance and the lowest
  functional road class to the next point; the last two are \<open>None\<close> where the caller
  leaves them out.
\<close>

datatype 'a LocationReferencePoint =
  LocationReferencePoint
    (longitude: 'a) (latitude: 'a) (bearing: 'a) (frc: "8 word") (fow: FormOfWay)
    (prev: "'a LocationReferencePoint option") (distance: "'a option")
    (lfrcnp: "8 word option")

text \<open>A chain of points with its positive and negative offset: the arguments of \<open>OpenLr{lrps, 0, 0}\<close>.\<close>

record 'a OpenLr =
  lrps :: "'a LocationReferencePoint list"
  poff :: nat
  noff :: nat

record 'a Node =
  edge :: "'a Edge option"

definition has_edge :: "'a Node \<Rightarrow> bool" where
  "has_edge nd = (edge nd \<noteq> None)"

record 'a TripLeg =
  shape :: string
  node :: "'a Node list"

record 'a TripRoute =
  legs :: "'a TripLeg list"

record 'a Trip =
  routes :: "'a TripRoute list"

text \<open>
  The functions of other modules that \<open>openlr_edges\<close> calls are parameters: the decoder
  of the compact shape (\<open>midgard::decode\<close>), the heading estimator
  (\<open>midgard::tangent_angle\<close>) and the encoder of a chain (\<open>OpenLr::toBase64\<close>).
\<close>

record 'a collaborators =
  decode :: "string \<Rightarrow> 'a PointLL list"
  tangent_angle ::
    "nat \<Rightarrow> 'a PointLL \<Rightarrow> 'a PointLL list \<Rightarrow> 'a \<Rightarrow> bool \<Rightarrow> nat \<Rightarrow> nat \<Rightarrow> 'a"
  toBase64 :: "'a OpenLr \<Rightarrow> string"

text \<open>
  Modelled from the spec: \<open>kMetersPerKm\<close> of \<open>midgard/constants.h\<close>, which is not part of
  the sources; the spec gives the distance of the start point as the length of the edge
  in meters.
\<close>

definition kMetersPerKm :: "'a::numeral" where
  "kMetersPerKm = 1000"

subsection \<open>The OpenLR encoder\<close>

text \<open>
  Lines 349 to 367, the body of the loop of \<open>openlr_edges\<close> up to the two points of the
  chain. \<open>shape[i]\<close> outside the vector is undefined in C++; here it is the error
  \<open>index_out_of_bounds\<close>.
\<close>

definition openlr_lrps ::
  "('a::{times,numeral}) collaborators \<Rightarrow> 'a PointLL list \<Rightarrow> 'a Edge
     \<Rightarrow> error + 'a LocationReferencePoint list" where
  "openlr_lrps X shp e =
     (let fow = road_class_to_fow e;
          frc = (of_nat (road_class e) :: 8 word);
          begin_index = begin_shape_index e;
          end_index = end_shape_index e
      in if length shp \<le> begin_index then Inl index_out_of_bounds
         else
           let start = shp ! begin_index;
               forward_heading =
                 tangent_angle X begin_index start shp 20 True begin_index end_index
           in if length shp \<le> end_index then Inl index_out_of_bounds
              else
                let end = shp ! end_index;
                    reverse_heading =
                      tangent_angle X end_index end shp 20 False begin_index end_index;
                    lrps = [];
                    lrps = lrps @ [LocationReferencePoint (lng start) (lat start)
                             forward_heading frc fow None
                             (Some (length_km e * kMetersPerKm)) (Some frc)];
                    lrps = lrps @ [LocationReferencePoint (lng end) (lat end)
                             reverse_heading frc fow (Some (last lrps)) None None]
                in Inr lrps)"

text \<open>The loop over the nodes of the leg: it ends at the first node without an edge.\<close>

fun openlr_loop ::
  "('a::{times,numeral}) collaborators \<Rightarrow> 'a PointLL list \<Rightarrow> 'a Node list \<Rightarrow> string list
     \<Rightarrow> error + string list" where
  "openlr_loop X shp [] openlrs = Inr openlrs"
| "openlr_loop X shp (nd # rest) openlrs =
     (if \<not> has_edge nd then Inr openlrs
      else case edge nd of
        None \<Rightarrow> Inr openlrs
      | Some e \<Rightarrow>
          (case openlr_lrps X shp e of
             Inl err \<Rightarrow> Inl err
           | Inr chain \<Rightarrow>
               openlr_loop X shp rest
                 (openlrs @ [toBase64 X \<lparr>lrps = chain, poff = 0, noff = 0\<rparr>])))"

definition openlr_edges ::
  "('a::{times,numeral}) collaborators \<Rightarrow> 'a TripLeg \<Rightarrow> error + string list" where
  "openlr_edges X leg =
     (let shape = decode X (shape leg);
          openlrs = []
      in openlr_loop X shape (node leg) openlrs)"

subsection \<open>Request options and the response object\<close>

text \<open>
  The actions \<open>Options::route\<close> and so on. The source names seven of them;
  \<open>Options_no_action\<close> is the value of a default-constructed \<open>Options\<close>, and
  \<open>Options_other n\<close> stands for any further action of the enumeration.
\<close>

datatype Action =
    Options_no_action
  | Options_route
  | Options_centroid
  | Options_optimized_route
  | Options_trace_route
  | Options_trace_attributes
  | Options_status
  | Options_sources_to_targets
  | Options_other nat

text \<open>
  The flags of the field selector; the prefix keeps them apart from the fields of the
  response object that they select.
\<close>

record PbfFieldSelector =
  sel_options :: bool
  sel_trip :: bool
  sel_directions :: bool
  sel_status :: bool
  sel_matrix :: bool

record Options =
  action :: Action
  linear_references :: bool
  pbf_field_selector :: "PbfFieldSelector option"

record Info =
  is_service :: bool

text \<open>
  The response object \<open>Api\<close>. The contents of the directions, status and matrix
  sub-messages play no part here and have the types \<open>'d\<close>, \<open>'s\<close>, \<open>'m\<close>.
\<close>

record ('a, 'd, 's, 'm) Api =
  options :: "Options option"
  trip :: "'a Trip option"
  directions :: "'d option"
  status :: "'s option"
  matrix :: "'m option"
  info :: "Info option"

text \<open>
  The accessors of a protocol-buffer message: reading a sub-message that is not set
  gives the default instance, \<open>mutable_options\<close> creates it, and \<open>Swap\<close> exchanges
  the contents of two messages.
\<close>

definition default_PbfFieldSelector :: PbfFieldSelector where
  "default_PbfFieldSelector =
     \<lparr>sel_options = False, sel_trip = False, sel_directions = False, sel_status = False,
      sel_matrix = False\<rparr>"

definition default_Options :: Options where
  "default_Options =
     \<lparr>action = Options_no_action, linear_references = False, pbf_field_selector = None\<rparr>"

definition default_Info :: Info where
  "default_Info = \<lparr>is_service = False\<rparr>"

definition default_Trip :: "'a Trip" where
  "default_Trip = \<lparr>routes = []\<rparr>"

definition has_pbf_field_selector :: "Options \<Rightarrow> bool" where
  "has_pbf_field_selector opts = (pbf_field_selector opts \<noteq> None)"

definition get_pbf_field_selector :: "Options \<Rightarrow> PbfFieldSelector" where
  "get_pbf_field_selector opts =
     (case pbf_field_selector opts of None \<Rightarrow> default_PbfFieldSelector | Some sel \<Rightarrow> sel)"

definition get_options :: "('a, 'd, 's, 'm) Api \<Rightarrow> Options" where
  "get_options api = (case options api of None \<Rightarrow> default_Options | Some opts \<Rightarrow> opts)"

definition get_trip :: "('a, 'd, 's, 'm) Api \<Rightarrow> 'a Trip" where
  "get_trip api = (case trip api of None \<Rightarrow> default_Trip | Some t \<Rightarrow> t)"

definition has_info :: "('a, 'd, 's, 'm) Api \<Rightarrow> bool" where
  "has_info api = (info api \<noteq> None)"

definition get_info :: "('a, 'd, 's, 'm) Api \<Rightarrow> Info" where
  "get_info api = (case info api of None \<Rightarrow> default_Info | Some i \<Rightarrow> i)"

definition mutable_options :: "('a, 'd, 's, 'm) Api \<Rightarrow> ('a, 'd, 's, 'm) Api" where
  "mutable_options api =
     (case options api of None \<Rightarrow> api\<lparr>options := Some default_Options\<rparr> | Some opts \<Rightarrow> api)"

definition Swap_options ::
  "('a, 'd, 's, 'm) Api \<Rightarrow> Options \<Rightarrow> ('a, 'd, 's, 'm) Api \<times> Options" where
  "Swap_options api other =
     (let api = mutable_options api
      in (api\<lparr>options := Some other\<rparr>, get_options api))"

subsection \<open>Linear references on the JSON paths\<close>

text \<open>
  The JSON values that \<open>route_references\<close> builds: strings and arrays. A JSON object is
  a map from keys to values; \<open>emplace\<close> adds a key only where the object does not
  hold it yet.
\<close>

datatype json =
    json_string string
  | json_array "json list"

type_synonym Jmap = "string \<rightharpoonup> json"

definition emplace :: "Jmap \<Rightarrow> string \<Rightarrow> json \<Rightarrow> Jmap" where
  "emplace m k v = (case m k of None \<Rightarrow> m(k \<mapsto> v) | Some old \<Rightarrow> m)"

text \<open>The loop over the legs of a route, lines 433 to 439.\<close>

fun route_references_loop ::
  "('a::{times,numeral}) collaborators \<Rightarrow> 'a TripLeg list \<Rightarrow> json list
     \<Rightarrow> error + json list" where
  "route_references_loop X [] references = Inr references"
| "route_references_loop X (leg # rest) references =
     (case openlr_edges X leg of
        Inl err \<Rightarrow> Inl err
      | Inr edge_references \<Rightarrow>
          route_references_loop X rest (references @ map json_string edge_references))"

definition route_references ::
  "('a::{times,numeral}) collaborators \<Rightarrow> Jmap \<Rightarrow> 'a TripRoute \<Rightarrow> Options
     \<Rightarrow> error + Jmap" where
  "route_references X route_json route options' =
     (let linear_reference =
            (linear_references options' \<and>
             (action options' = Options_trace_route \<or> action options' = Options_route))
      in if \<not> linear_reference then Inr route_json
         else
           let references = []
           in case route_references_loop X (legs route) references of
                Inl err \<Rightarrow> Inl err
              | Inr references \<Rightarrow>
                  Inr (emplace route_json ''linear_references'' (json_array references)))"

text \<open>
  The streaming writer of \<open>openlr\<close> is the list of the events written so far:
  \<open>start_array\<close> writes the key and opens the array, the call operator writes a string,
  \<open>end_array\<close> closes the array.
\<close>

datatype writer_event =
    Key string
  | StartArray
  | EndArray
  | String string

type_synonym writer_wrapper_t = "writer_event list"

definition start_array :: "string \<Rightarrow> writer_wrapper_t \<Rightarrow> writer_wrapper_t" where
  "start_array k writer = writer @ [Key k, StartArray]"

definition write_string :: "string \<Rightarrow> writer_wrapper_t \<Rightarrow> writer_wrapper_t" where
  "write_string s writer = writer @ [String s]"

definition end_array :: "writer_wrapper_t \<Rightarrow> writer_wrapper_t" where
  "end_array writer = writer @ [EndArray]"

text \<open>The loop over the legs of the route, lines 450 to 454.\<close>

fun openlr_legs_loop ::
  "('a::{times,numeral}) collaborators \<Rightarrow> 'a TripLeg list \<Rightarrow> writer_wrapper_t
     \<Rightarrow> error + writer_wrapper_t" where
  "openlr_legs_loop X [] writer = Inr writer"
| "openlr_legs_loop X (leg # rest) writer =
     (case openlr_edges X leg of
        Inl err \<Rightarrow> Inl err
      | Inr openlrs \<Rightarrow>
          openlr_legs_loop X rest (foldl (\<lambda>w s. write_string s w) writer openlrs))"

text \<open>
  \<open>routes(route_index)\<close> outside the repeated field is undefined in C++; here it is the
  error \<open>index_out_of_bounds\<close>.
\<close>

definition openlr ::
  "('a::{times,numeral}) collaborators \<Rightarrow> ('a, 'd, 's, 'm) Api \<Rightarrow> int \<Rightarrow> writer_wrapper_t
     \<Rightarrow> error + writer_wrapper_t" where
  "openlr X api route_index writer =
     (if \<not> linear_references (get_options api) \<or>
         (action (get_options api) \<noteq> Options_trace_route \<and>
          action (get_options api) \<noteq> Options_route)
      then Inr writer
      else
        let writer = start_array ''linear_references'' writer
        in if route_index < 0 \<or> int (length (routes (get_trip api))) \<le> route_index
           then Inl index_out_of_bounds
           else
             case openlr_legs_loop X (legs (routes (get_trip api) ! nat route_index)) writer of
               Inl err \<Rightarrow> Inl err
             | Inr writer \<Rightarrow> Inr (end_array writer))"

subsection \<open>Serialization to pbf\<close>

text \<open>
  \<open>SerializeAsString\<close> of the protocol-buffer library is a parameter; it gives the
  bytes or raises an exception, which \<open>serializePbf\<close> does not catch. The result is the
  exception or the bytes, together with the request as the call leaves it.
\<close>

definition serializePbf ::
  "(('a, 'd, 's, 'm) Api \<Rightarrow> error + string) \<Rightarrow> ('a, 'd, 's, 'm) Api
     \<Rightarrow> (error + string) \<times> ('a, 'd, 's, 'm) Api" where
  "serializePbf SerializeAsString request =
     (let selection = get_pbf_field_selector (get_options request);
          inferred =
            (if \<not> has_pbf_field_selector (get_options request) then
               (case action (get_options request) of
                  Options_route \<Rightarrow> Inr (selection\<lparr>sel_directions := True\<rparr>)
                | Options_centroid \<Rightarrow> Inr (selection\<lparr>sel_directions := True\<rparr>)
                | Options_optimized_route \<Rightarrow> Inr (selection\<lparr>sel_directions := True\<rparr>)
                | Options_trace_route \<Rightarrow> Inr (selection\<lparr>sel_directions := True\<rparr>)
                | Options_trace_attributes \<Rightarrow> Inr (selection\<lparr>sel_trip := True\<rparr>)
                | Options_status \<Rightarrow> Inr (selection\<lparr>sel_status := True\<rparr>)
                | Options_sources_to_targets \<Rightarrow> Inr (selection\<lparr>sel_matrix := True\<rparr>)
                | _ \<Rightarrow> Inl (logic_error ''Requested action is not yet serializable as pbf''))
             else Inr selection)
      in case inferred of
           Inl err \<Rightarrow> (Inl err, request)
         | Inr selection \<Rightarrow>
             (let skip_options =
                    (\<not> sel_options (get_pbf_field_selector (get_options request)) \<and>
                     has_info request \<and> is_service (get_info request));
                  dummy = default_Options;
                  (request, dummy) =
                    (if skip_options then Swap_options request dummy else (request, dummy));
                  request = (if \<not> sel_trip selection then request\<lparr>trip := None\<rparr> else request);
                  request =
                    (if \<not> sel_directions selection then request\<lparr>directions := None\<rparr>
                     else request);
                  request = (if \<not> sel_status selection then request\<lparr>status := None\<rparr> else request);
                  request =
                    (if \<not> sel_options selection then request\<lparr>options := None\<rparr> else request);
                  request = (if \<not> sel_matrix selection then request\<lparr>matrix := None\<rparr> else request)
              in case SerializeAsString request of
                   Inl err \<Rightarrow> (Inl err, request)
                 | Inr bytes \<Rightarrow>
                     (let (request, dummy) =
                            (if skip_options then Swap_options request dummy
                             else (request, dummy))
                      in (Inr bytes, request))))"

subsection \<open>Sample inputs\<close>

text \<open>Concrete values at which the theorems below are instantiated.\<close>

definition sample_edge :: "int Edge" where
  "sample_edge = \<lparr>road_class = 3, use = kRoadUse, roundabout = False,
     traversability = kBoth, length_km = 2, begin_shape_index = 0, end_shape_index = 1\<rparr>"

definition sample_collaborators :: "int collaborators" where
  "sample_collaborators =
     \<lparr>decode = (\<lambda>s. [\<lparr>lng = 0, lat = 0\<rparr>, \<lparr>lng = 1, lat = 1\<rparr>, \<lparr>lng = 2, lat = 1\<rparr>]),
      tangent_angle = (\<lambda>i p shp w forward lo hi. if forward then 45 else 225),
      toBase64 = (\<lambda>c. map (\<lambda>p. if prev p = None then CHR ''s'' else CHR ''e'') (lrps c))\<rparr>"

definition sample_leg :: "int TripLeg" where
  "sample_leg = \<lparr>shape = ''shape'',
     node = [\<lparr>edge = Some sample_edge\<rparr>,
             \<lparr>edge = Some (sample_edge\<lparr>begin_shape_index := 1, end_shape_index := 2\<rparr>)\<rparr>,
             \<lparr>edge = None\<rparr>]\<rparr>"

definition sample_gap_leg :: "int TripLeg" where
  "sample_gap_leg = \<lparr>shape = ''shape'',
     node = [\<lparr>edge = Some sample_edge\<rparr>, \<lparr>edge = None\<rparr>,
             \<lparr>edge = Some (sample_edge\<lparr>begin_shape_index := 1, end_shape_index := 2\<rparr>)\<rparr>]\<rparr>"

definition sample_SerializeAsString ::
  "(int, string, string, string) Api \<Rightarrow> error + string" where
  "sample_SerializeAsString api =
     Inr ((if options api \<noteq> None then ''O'' else []) @ (if trip api \<noteq> None then ''T'' else [])
       @ (if directions api \<noteq> None then ''D'' else [])
       @ (if status api \<noteq> None then ''S'' else [])
       @ (if matrix api \<noteq> None then ''M'' else []) @ (if info api \<noteq> None then ''I'' else []))"


definition sample_options :: Options where
  "sample_options =
     \<lparr>action = Options_status, linear_references = True, pbf_field_selector = None\<rparr>"

definition sample_request :: "(int, string, string, string) Api" where
  "sample_request =
     \<lparr>options = Some sample_options,
      trip = Some \<lparr>routes = [\<lparr>legs = [sample_leg]\<rparr>]\<rparr>,
      directions = Some ''directions'', status = Some ''status'', matrix = Some ''matrix'',
      info = Some \<lparr>is_service = True\<rparr>\<rparr>"

definition sample_selector :: PbfFieldSelector where
  "sample_selector =
     \<lparr>sel_options = False, sel_trip = True, sel_directions = False, sel_status = False,
      sel_matrix = False\<rparr>"

section \<open>Properties\<close>

subsection \<open>Form of way\<close>

text \<open>
  C3. The form of way follows a priority chain in which the first match wins: a
  roundabout is ROUNDABOUT; otherwise a ramp or turn channel is SLIPROAD; otherwise a
  motorway is MOTORWAY; otherwise an edge traversable in both directions is
  MULTIPLE_CARRIAGEWAY; otherwise an edge traversable forward only or backward only is
  SINGLE_CARRIAGEWAY; otherwise (no traversability) it is OTHER. In particular a
  roundabout of motorway class is ROUNDABOUT.
\<close>

theorem road_class_to_fow_first_match:
  fixes e :: "'a Edge"
  shows "(roundabout e \<longrightarrow> road_class_to_fow e = ROUNDABOUT)
    \<and> (\<not> roundabout e \<and> (use e = kRampUse \<or> use e = kTurnChannelUse)
         \<longrightarrow> road_class_to_fow e = SLIPROAD)
    \<and> (\<not> roundabout e \<and> use e \<noteq> kRampUse \<and> use e \<noteq> kTurnChannelUse
         \<and> road_class e = kMotorway \<longrightarrow> road_class_to_fow e = MOTORWAY)
    \<and> (\<not> roundabout e \<and> use e \<noteq> kRampUse \<and> use e \<noteq> kTurnChannelUse
         \<and> road_class e \<noteq> kMotorway \<and> traversability e = kBoth
         \<longrightarrow> road_class_to_fow e = MULTIPLE_CARRIAGEWAY)
    \<and> (\<not> roundabout e \<and> use e \<noteq> kRampUse \<and> use e \<noteq> kTurnChannelUse
         \<and> road_class e \<noteq> kMotorway
         \<and> (traversability e = kForward \<or> traversability e = kBackward)
         \<longrightarrow> road_class_to_fow e = SINGLE_CARRIAGEWAY)
    \<and> (\<not> roundabout e \<and> use e \<noteq> kRampUse \<and> use e \<noteq> kTurnChannelUse
         \<and> road_class e \<noteq> kMotorway \<and> traversability e = kNone
         \<longrightarrow> road_class_to_fow e = OTHER)
    \<and> (roundabout e \<and> road_class e = kMotorway \<longrightarrow> road_class_to_fow e = ROUNDABOUT)"
  by (auto simp: road_class_to_fow_def)

theorem road_class_to_fow_first_match_witness:
  "road_class_to_fow (sample_edge\<lparr>roundabout := True\<rparr>) = ROUNDABOUT
   \<and> road_class_to_fow (sample_edge\<lparr>use := kRampUse, road_class := kMotorway\<rparr>) = SLIPROAD
   \<and> road_class_to_fow (sample_edge\<lparr>use := kTurnChannelUse\<rparr>) = SLIPROAD
   \<and> road_class_to_fow (sample_edge\<lparr>road_class := kMotorway\<rparr>) = MOTORWAY
   \<and> road_class_to_fow sample_edge = MULTIPLE_CARRIAGEWAY
   \<and> road_class_to_fow (sample_edge\<lparr>traversability := kForward\<rparr>) = SINGLE_CARRIAGEWAY
   \<and> road_class_to_fow (sample_edge\<lparr>traversability := kBackward\<rparr>) = SINGLE_CARRIAGEWAY
   \<and> road_class_to_fow (sample_edge\<lparr>traversability := kNone\<rparr>) = OTHER
   \<and> road_class_to_fow (sample_edge\<lparr>roundabout := True, road_class := kMotorway\<rparr>)
       = ROUNDABOUT"
  using road_class_to_fow_first_match [of "sample_edge\<lparr>roundabout := True\<rparr>"]
    road_class_to_fow_first_match
      [of "sample_edge\<lparr>use := kRampUse, road_class := kMotorway\<rparr>"]
    road_class_to_fow_first_match [of "sample_edge\<lparr>use := kTurnChannelUse\<rparr>"]
    road_class_to_fow_first_match [of "sample_edge\<lparr>road_class := kMotorway\<rparr>"]
    road_class_to_fow_first_match [of sample_edge]
    road_class_to_fow_first_match [of "sample_edge\<lparr>traversability := kForward\<rparr>"]
    road_class_to_fow_first_match [of "sample_edge\<lparr>traversability := kBackward\<rparr>"]
    road_class_to_fow_first_match [of "sample_edge\<lparr>traversability := kNone\<rparr>"]
    road_class_to_fow_first_match
      [of "sample_edge\<lparr>roundabout := True, road_class := kMotorway\<rparr>"]
  by (simp add: sample_edge_def kMotorway_def)

subsection \<open>The OpenLR encoder\<close>

lemma openlr_lrps_Inr_iff:
  fixes X :: "('a::{times,numeral}) collaborators"
  shows "(\<exists>chain. openlr_lrps X shp e = Inr chain) \<longleftrightarrow>
     begin_shape_index e < length shp \<and> end_shape_index e < length shp"
  by (auto simp: openlr_lrps_def Let_def split: if_splits)

lemma openlr_lrps_shape:
  fixes X :: "('a::{times,numeral}) collaborators"
  assumes "openlr_lrps X shp e = Inr chain"
  shows "\<exists>s t. chain = [s, t]
    \<and> frc s = of_nat (road_class e) \<and> frc t = of_nat (road_class e)
    \<and> fow s = road_class_to_fow e \<and> fow t = road_class_to_fow e
    \<and> distance s = Some (length_km e * kMetersPerKm) \<and> lfrcnp s = Some (of_nat (road_class e))
    \<and> prev s = None \<and> prev t = Some s \<and> distance t = None \<and> lfrcnp t = None"
  using assms by (auto simp: openlr_lrps_def Let_def split: if_splits)

lemma openlr_loop_takeWhile:
  "openlr_loop X shp nds acc = openlr_loop X shp (takeWhile has_edge nds) acc"
  by (induction nds arbitrary: acc) (auto simp: has_edge_def split: option.splits sum.splits)

lemma openlr_loop_Inr:
  assumes "openlr_loop X shp nds acc = Inr out"
  shows "\<exists>new. out = acc @ new \<and> list_all2 (\<lambda>nd s. \<exists>e chain. edge nd = Some e \<and> openlr_lrps X shp e = Inr chain
      \<and> s = toBase64 X \<lparr>lrps = chain, poff = 0, noff = 0\<rparr>) (takeWhile has_edge nds) new"
  using assms
proof (induction nds arbitrary: acc)
  case Nil
  then show ?case by simp
next
  case (Cons nd nds)
  show ?case
  proof (cases "edge nd")
    case None
    with Cons.prems show ?thesis by (simp add: has_edge_def)
  next
    case (Some e)
    then have he: "has_edge nd" by (simp add: has_edge_def)
    from Some he Cons.prems obtain chain where c: "openlr_lrps X shp e = Inr chain"
      and r: "openlr_loop X shp nds (acc @ [toBase64 X \<lparr>lrps = chain, poff = 0, noff = 0\<rparr>]) = Inr out"
      by (auto split: sum.splits)
    from Cons.IH [OF r] obtain new where
      "out = (acc @ [toBase64 X \<lparr>lrps = chain, poff = 0, noff = 0\<rparr>]) @ new"
      "list_all2 (\<lambda>nd s. \<exists>e chain. edge nd = Some e \<and> openlr_lrps X shp e = Inr chain
      \<and> s = toBase64 X \<lparr>lrps = chain, poff = 0, noff = 0\<rparr>) (takeWhile has_edge nds) new"
      by blast
    with Some c he show ?thesis
      by (intro exI [of _ "toBase64 X \<lparr>lrps = chain, poff = 0, noff = 0\<rparr> # new"]) simp
  qed
qed

lemma openlr_loop_returns:
  assumes "\<forall>nd\<in>set (takeWhile has_edge nds). \<forall>e. edge nd = Some e \<longrightarrow>
     begin_shape_index e < length shp \<and> end_shape_index e < length shp"
  shows "\<exists>out. openlr_loop X shp nds acc = Inr out"
  using assms
proof (induction nds arbitrary: acc)
  case Nil
  then show ?case by simp
next
  case (Cons nd nds)
  show ?case
  proof (cases "edge nd")
    case None
    then show ?thesis by (simp add: has_edge_def)
  next
    case (Some e)
    then have he: "has_edge nd" by (simp add: has_edge_def)
    with Some Cons.prems
    have v: "begin_shape_index e < length shp \<and> end_shape_index e < length shp"
      by simp
    then obtain chain where c: "openlr_lrps X shp e = Inr chain"
      using openlr_lrps_Inr_iff [of X shp e] by blast
    from Cons.prems he have "\<forall>nd\<in>set (takeWhile has_edge nds). \<forall>e. edge nd = Some e \<longrightarrow>
     begin_shape_index e < length shp \<and> end_shape_index e < length shp"
      by simp
    from Cons.IH [OF this] Some c he show ?thesis by simp
  qed
qed

lemma takeWhile_has_edge_prefix:
  assumes "map edge nds = map Some es @ None # later"
  shows "takeWhile has_edge nds = take (length es) nds"
  using assms
proof (induction es arbitrary: nds)
  case Nil
  then show ?case by (cases nds) (auto simp: has_edge_def)
next
  case (Cons e es)
  then show ?case by (cases nds) (auto simp: has_edge_def)
qed

lemma edge_nth_prefix:
  assumes "map edge nds = map Some es @ rest" and "i < length es"
  shows "edge (nds ! i) = Some (es ! i)"
proof -
  have "i < length nds" using assms by (metis length_map length_append trans_less_add1)
  then have "edge (nds ! i) = map edge nds ! i" by simp
  also have "\<dots> = Some (es ! i)" using assms by (simp add: nth_append)
  finally show ?thesis .
qed

lemma openlr_edges_prefix:
  fixes X :: "('a::{times,numeral}) collaborators"
  assumes nodes: "map edge (node leg) = map Some es @ None # later"
    and valid: "\<forall>e\<in>set es. begin_shape_index e < length (decode X (shape leg))
                  \<and> end_shape_index e < length (decode X (shape leg))"
  shows "\<exists>openlrs. openlr_edges X leg = Inr openlrs \<and> length openlrs = length es
     \<and> (\<forall>i<length es. \<exists>chain.
           openlr_lrps X (decode X (shape leg)) (es ! i) = Inr chain
           \<and> openlrs ! i = toBase64 X \<lparr>lrps = chain, poff = 0, noff = 0\<rparr>)"
proof -
  let ?shp = "decode X (shape leg)"
  let ?nds = "node leg"
  have tw: "takeWhile has_edge ?nds = take (length es) ?nds"
    using nodes by (rule takeWhile_has_edge_prefix)
  have len: "length ?nds = length es + Suc (length later)"
    using arg_cong [OF nodes, of length] by simp
  have "map edge (take (length es) ?nds) = map Some es"
    using arg_cong [OF nodes, of "take (length es)"] by (simp add: take_map)
  then have mem: "edge nd = Some e \<Longrightarrow> e \<in> set es"
    if "nd \<in> set (take (length es) ?nds)" for nd e
    using that by (metis (no_types, lifting) image_iff image_set option.inject)
  have "\<forall>nd\<in>set (takeWhile has_edge ?nds). \<forall>e. edge nd = Some e \<longrightarrow>
     begin_shape_index e < length ?shp \<and> end_shape_index e < length ?shp"
    using mem valid by (simp add: tw)
  then obtain out where out: "openlr_loop X ?shp ?nds [] = Inr out"
    using openlr_loop_returns by blast
  from openlr_loop_Inr [OF out] have
    rel: "list_all2 (\<lambda>nd s. \<exists>e chain. edge nd = Some e \<and> openlr_lrps X ?shp e = Inr chain
      \<and> s = toBase64 X \<lparr>lrps = chain, poff = 0, noff = 0\<rparr>) (take (length es) ?nds) out"
    by (simp add: tw)
  then have lo: "length out = length es"
    using len by (simp add: list_all2_lengthD [symmetric])
  have "\<exists>chain. openlr_lrps X ?shp (es ! i) = Inr chain
           \<and> out ! i = toBase64 X \<lparr>lrps = chain, poff = 0, noff = 0\<rparr>" if i: "i < length es" for i
  proof -
    have "i < length (take (length es) ?nds)" using i len by simp
    from list_all2_nthD [OF rel this] i
    obtain e chain where "edge (?nds ! i) = Some e" "openlr_lrps X ?shp e = Inr chain"
      "out ! i = toBase64 X \<lparr>lrps = chain, poff = 0, noff = 0\<rparr>" by auto
    moreover have "edge (?nds ! i) = Some (es ! i)"
      using nodes i by (rule edge_nth_prefix)
    ultimately show ?thesis by simp
  qed
  with out lo show ?thesis by (simp add: openlr_edges_def)
qed

lemma sample_leg_openlrs:
  "openlr_edges sample_collaborators sample_leg = Inr [''se'', ''se'']"
  by (simp add: openlr_edges_def openlr_lrps_def has_edge_def sample_leg_def
      sample_collaborators_def sample_edge_def Let_def)

text \<open>
  C1. A leg whose nodes carry the edges \<open>es\<close>, in this order, followed by the final node
  without an edge, gives exactly one reference string per edge, in the order of the edges:
  as many strings as edges, one fewer than nodes, the \<open>i\<close>-th string being the encoding
  of the chain of the \<open>i\<close>-th edge. The shape indices of the edges are taken to lie
  inside the decoded shape.
\<close>

theorem openlr_edges_one_string_per_edge:
  fixes X :: "('a::{times,numeral}) collaborators"
  assumes nodes: "map edge (node leg) = map Some es @ [None]"
    and valid: "\<forall>e\<in>set es. begin_shape_index e < length (decode X (shape leg))
                  \<and> end_shape_index e < length (decode X (shape leg))"
  shows "\<exists>openlrs. openlr_edges X leg = Inr openlrs \<and> length openlrs = length es
     \<and> Suc (length openlrs) = length (node leg)
     \<and> (\<forall>i<length es. \<exists>chain.
           openlr_lrps X (decode X (shape leg)) (es ! i) = Inr chain
           \<and> openlrs ! i = toBase64 X \<lparr>lrps = chain, poff = 0, noff = 0\<rparr>)"
proof -
  have "length (node leg) = Suc (length es)"
    using arg_cong [OF nodes, of length] by simp
  with openlr_edges_prefix [OF nodes valid] show ?thesis by auto
qed

theorem openlr_edges_one_string_per_edge_witness:
  "map edge (node sample_leg)
     = map Some [sample_edge, sample_edge\<lparr>begin_shape_index := 1, end_shape_index := 2\<rparr>] @ [None]
   \<and> (\<exists>openlrs. openlr_edges sample_collaborators sample_leg = Inr openlrs
        \<and> length openlrs = 2 \<and> length (node sample_leg) = 3)"
proof -
  have n: "map edge (node sample_leg)
     = map Some [sample_edge, sample_edge\<lparr>begin_shape_index := 1, end_shape_index := 2\<rparr>] @ [None]"
    by (simp add: sample_leg_def)
  have v: "\<forall>e\<in>set [sample_edge, sample_edge\<lparr>begin_shape_index := 1, end_shape_index := 2\<rparr>].
     begin_shape_index e < length (decode sample_collaborators (shape sample_leg))
     \<and> end_shape_index e < length (decode sample_collaborators (shape sample_leg))"
    by (simp add: sample_collaborators_def sample_edge_def)
  from openlr_edges_one_string_per_edge [OF n v] n show ?thesis by auto
qed

text \<open>
  C2. Every string that \<open>openlr_edges\<close> returns is the encoding of a chain of exactly two
  points with both offsets zero, built from the edge of the node at the same position.
  The start point has no predecessor, its distance to the next point is the length of
  the edge in kilometres times 1000 and its lowest functional road class to the next
  point is the class of the edge; the end point refers back to the start point and is
  given neither a distance nor a lowest class.
\<close>

theorem openlr_chain_of_two_points:
  fixes X :: "('a::{times,numeral}) collaborators"
  assumes ret: "openlr_edges X leg = Inr openlrs" and i: "i < length openlrs"
  shows "\<exists>e s t. edge (node leg ! i) = Some e
     \<and> openlr_lrps X (decode X (shape leg)) e = Inr [s, t]
     \<and> openlrs ! i = toBase64 X \<lparr>lrps = [s, t], poff = 0, noff = 0\<rparr>
     \<and> distance s = Some (length_km e * 1000)
     \<and> lfrcnp s = Some (of_nat (road_class e)) \<and> frc s = of_nat (road_class e)
     \<and> prev s = None
     \<and> prev t = Some s \<and> distance t = None \<and> lfrcnp t = None"
proof -
  let ?shp = "decode X (shape leg)"
  from ret have "openlr_loop X ?shp (node leg) [] = Inr openlrs"
    by (simp add: openlr_edges_def)
  from openlr_loop_Inr [OF this] have
    rel: "list_all2 (\<lambda>nd s. \<exists>e chain. edge nd = Some e \<and> openlr_lrps X ?shp e = Inr chain
      \<and> s = toBase64 X \<lparr>lrps = chain, poff = 0, noff = 0\<rparr>) (takeWhile has_edge (node leg)) openlrs"
    by simp
  then have li: "i < length (takeWhile has_edge (node leg))"
    using i by (simp add: list_all2_lengthD)
  from list_all2_nthD [OF rel li]
  obtain e chain where e: "edge (takeWhile has_edge (node leg) ! i) = Some e"
    and c: "openlr_lrps X ?shp e = Inr chain"
    and o: "openlrs ! i = toBase64 X \<lparr>lrps = chain, poff = 0, noff = 0\<rparr>" by auto
  from li have "takeWhile has_edge (node leg) ! i = node leg ! i"
    by (rule takeWhile_nth)
  with e have e': "edge (node leg ! i) = Some e" by simp
  from openlr_lrps_shape [OF c] e' c o show ?thesis
    by (auto simp: kMetersPerKm_def)
qed

theorem openlr_chain_of_two_points_witness:
  "openlr_edges sample_collaborators sample_leg = Inr [''se'', ''se'']
   \<and> (\<exists>s t. openlr_lrps sample_collaborators (decode sample_collaborators (shape sample_leg))
               sample_edge = Inr [s, t]
        \<and> distance s = Some 2000 \<and> lfrcnp s = Some 3 \<and> prev t = Some s
        \<and> distance t = None \<and> lfrcnp t = None)"
proof -
  have r: "openlr_edges sample_collaborators sample_leg = Inr [''se'', ''se'']"
    by (rule sample_leg_openlrs)
  have i: "0 < length [''se'', ''se'']" by simp
  have "edge (node sample_leg ! 0) = Some sample_edge" by (simp add: sample_leg_def)
  with openlr_chain_of_two_points [OF r i] r show ?thesis
    by (auto simp: sample_edge_def)
qed

text \<open>
  C4. The functional road class of both points of the chain of an edge, and the lowest
  class to the next point, is the ordinal of the road class of the edge itself: the cast
  to \<open>uint8_t\<close> keeps every ordinal below 256, so the scale of the road classes
  (0 the highest class, 7 the lowest) is kept as it is.
\<close>

theorem frc_is_road_class_ordinal:
  fixes X :: "('a::{times,numeral}) collaborators"
  assumes b: "begin_shape_index e < length shp" and en: "end_shape_index e < length shp"
    and rc: "road_class e < 256"
  shows "\<exists>s t. openlr_lrps X shp e = Inr [s, t]
     \<and> unat (frc s) = road_class e \<and> unat (frc t) = road_class e
     \<and> lfrcnp s = Some (frc s)"
proof -
  from b en obtain chain where c: "openlr_lrps X shp e = Inr chain"
    using openlr_lrps_Inr_iff [of X shp e] by blast
  have "unat (of_nat (road_class e) :: 8 word) = road_class e"
    using rc by (simp add: unat_of_nat)
  with openlr_lrps_shape [OF c] c show ?thesis by auto
qed

theorem frc_is_road_class_ordinal_witness:
  "road_class sample_edge < 256
   \<and> (\<exists>s t. openlr_lrps sample_collaborators (decode sample_collaborators ''shape'')
               sample_edge = Inr [s, t]
        \<and> unat (frc s) = 3 \<and> unat (frc t) = 3)"
proof -
  have b: "begin_shape_index sample_edge < length (decode sample_collaborators ''shape'')"
    and e: "end_shape_index sample_edge < length (decode sample_collaborators ''shape'')"
    by (simp_all add: sample_collaborators_def sample_edge_def)
  have rc: "road_class sample_edge < 256" by (simp add: sample_edge_def)
  from frc_is_road_class_ordinal [OF b e rc, of sample_collaborators] rc show ?thesis
    by (auto simp: sample_edge_def)
qed

text \<open>
  C9. The loop ends at the first node without an edge. For a leg whose nodes carry the
  edges \<open>es\<close>, then a node without an edge, then any further nodes \<open>later\<close> (with or
  without edges), the result is the result for the leg cut after the first
  \<open>length es\<close> nodes: one string per edge of \<open>es\<close> and nothing for \<open>later\<close>.
\<close>

theorem openlr_edges_stops_at_first_edgeless_node:
  fixes X :: "('a::{times,numeral}) collaborators"
  assumes nodes: "map edge (node leg) = map Some es @ None # later"
    and valid: "\<forall>e\<in>set es. begin_shape_index e < length (decode X (shape leg))
                  \<and> end_shape_index e < length (decode X (shape leg))"
  shows "openlr_edges X leg = openlr_edges X (leg\<lparr>node := take (length es) (node leg)\<rparr>)
     \<and> (\<exists>openlrs. openlr_edges X leg = Inr openlrs \<and> length openlrs = length es
         \<and> (\<forall>i<length es. \<exists>chain.
              openlr_lrps X (decode X (shape leg)) (es ! i) = Inr chain
              \<and> openlrs ! i = toBase64 X \<lparr>lrps = chain, poff = 0, noff = 0\<rparr>))"
proof
  have "takeWhile has_edge (node leg) = take (length es) (node leg)"
    using nodes by (rule takeWhile_has_edge_prefix)
  then show "openlr_edges X leg = openlr_edges X (leg\<lparr>node := take (length es) (node leg)\<rparr>)"
    using openlr_loop_takeWhile [of X "decode X (shape leg)" "node leg" "[]"]
    by (simp add: openlr_edges_def)
next
  show "\<exists>openlrs. openlr_edges X leg = Inr openlrs \<and> length openlrs = length es
         \<and> (\<forall>i<length es. \<exists>chain.
              openlr_lrps X (decode X (shape leg)) (es ! i) = Inr chain
              \<and> openlrs ! i = toBase64 X \<lparr>lrps = chain, poff = 0, noff = 0\<rparr>)"
    using nodes valid by (rule openlr_edges_prefix)
qed

theorem openlr_edges_stops_at_first_edgeless_node_witness:
  "map edge (node sample_gap_leg) = map Some [sample_edge] @ None
     # [Some (sample_edge\<lparr>begin_shape_index := 1, end_shape_index := 2\<rparr>)]
   \<and> (\<exists>openlrs. openlr_edges sample_collaborators sample_gap_leg = Inr openlrs
        \<and> length openlrs = 1)"
proof -
  have n: "map edge (node sample_gap_leg) = map Some [sample_edge] @ None
     # [Some (sample_edge\<lparr>begin_shape_index := 1, end_shape_index := 2\<rparr>)]"
    by (simp add: sample_gap_leg_def)
  have v: "\<forall>e\<in>set [sample_edge].
     begin_shape_index e < length (decode sample_collaborators (shape sample_gap_leg))
     \<and> end_shape_index e < length (decode sample_collaborators (shape sample_gap_leg))"
    by (simp add: sample_collaborators_def sample_edge_def)
  from openlr_edges_stops_at_first_edgeless_node [OF n v, THEN conjunct2] n
  show ?thesis by auto
qed

subsection \<open>Linear references on the JSON paths\<close>

lemma route_references_loop_all:
  assumes "map (openlr_edges X) ls = map Inr oss"
  shows "route_references_loop X ls acc = Inr (acc @ map json_string (concat oss))"
  using assms
proof (induction ls arbitrary: acc oss)
  case Nil
  then show ?case by simp
next
  case (Cons leg ls)
  then obtain os oss' where "oss = os # oss'" "openlr_edges X leg = Inr os"
    "map (openlr_edges X) ls = map Inr oss'"
    by (cases oss) auto
  with Cons.IH [of oss' "acc @ map json_string os"] show ?case by simp
qed

lemma foldl_write_string:
  "foldl (\<lambda>w s. write_string s w) writer strs = writer @ map String strs"
  by (induction strs arbitrary: writer) (simp_all add: write_string_def)

lemma openlr_legs_loop_all:
  assumes "map (openlr_edges X) ls = map Inr oss"
  shows "openlr_legs_loop X ls writer = Inr (writer @ map String (concat oss))"
  using assms
proof (induction ls arbitrary: writer oss)
  case Nil
  then show ?case by simp
next
  case (Cons leg ls)
  then obtain os oss' where "oss = os # oss'" "openlr_edges X leg = Inr os"
    "map (openlr_edges X) ls = map Inr oss'"
    by (cases oss) auto
  with Cons.IH [of oss' "writer @ map String os"] show ?case
    by (simp add: foldl_write_string)
qed

lemma openlr_legs_loop_Inr:
  assumes "openlr_legs_loop X ls writer = Inr writer'"
  shows "\<exists>strs. writer' = writer @ map String strs"
  using assms
proof (induction ls arbitrary: writer)
  case Nil
  then show ?case by simp
next
  case (Cons leg ls)
  then obtain os where os: "openlr_edges X leg = Inr os"
    and r: "openlr_legs_loop X ls (writer @ map String os) = Inr writer'"
    by (auto simp: foldl_write_string split: sum.splits)
  from Cons.IH [OF r] obtain strs where "writer' = (writer @ map String os) @ map String strs"
    by blast
  then have "writer' = writer @ map String (os @ strs)" by simp
  then show ?case by blast
qed

lemmas sample_defs = sample_request_def sample_options_def sample_SerializeAsString_def
  sample_selector_def

text \<open>
  C5. On both JSON paths the field \<open>linear_references\<close> is written if and only if
  linear references were requested and the action is route or trace_route. For any other
  action, and without the request, the object and the writer are returned as they were,
  without an error. When the condition holds and the encoder returns \<open>oss\<close> for the
  legs, the field holds their strings in order. In the object the key is taken to be
  absent before the call, since \<open>emplace\<close> keeps an existing entry.
\<close>

theorem linear_references_iff_requested_route:
  fixes X :: "('a::{times,numeral}) collaborators" and api :: "('a, 'd, 's, 'm) Api"
  shows "(\<not> (linear_references opts \<and>
             (action opts = Options_trace_route \<or> action opts = Options_route))
          \<longrightarrow> route_references X route_json route opts = Inr route_json)
    \<and> (linear_references opts \<and> (action opts = Options_trace_route \<or> action opts = Options_route)
          \<and> map (openlr_edges X) (legs route) = map Inr oss
          \<longrightarrow> route_references X route_json route opts =
                Inr (emplace route_json ''linear_references''
                       (json_array (map json_string (concat oss)))))
    \<and> (route_references X route_json route opts = Inr route_json'
          \<and> route_json ''linear_references'' = None
          \<longrightarrow> (route_json' ''linear_references'' \<noteq> None \<longleftrightarrow>
                 linear_references opts \<and>
                 (action opts = Options_trace_route \<or> action opts = Options_route)))
    \<and> (\<not> (linear_references (get_options api) \<and>
             (action (get_options api) = Options_trace_route \<or>
              action (get_options api) = Options_route))
          \<longrightarrow> openlr X api route_index writer = Inr writer)
    \<and> (linear_references (get_options api) \<and>
          (action (get_options api) = Options_trace_route \<or>
           action (get_options api) = Options_route)
          \<and> 0 \<le> route_index \<and> nat route_index < length (routes (get_trip api))
          \<and> map (openlr_edges X) (legs (routes (get_trip api) ! nat route_index)) = map Inr oss'
          \<longrightarrow> openlr X api route_index writer =
                Inr (writer @ [Key ''linear_references'', StartArray]
                       @ map String (concat oss') @ [EndArray]))
    \<and> (openlr X api route_index writer = Inr writer'
          \<longrightarrow> (Key ''linear_references'' \<in> set (drop (length writer) writer') \<longleftrightarrow>
                 linear_references (get_options api) \<and>
                 (action (get_options api) = Options_trace_route \<or>
                  action (get_options api) = Options_route)))"
proof (intro conjI impI)
  assume "\<not> (linear_references opts \<and>
             (action opts = Options_trace_route \<or> action opts = Options_route))"
  then show "route_references X route_json route opts = Inr route_json"
    by (simp add: route_references_def)
next
  assume "linear_references opts \<and> (action opts = Options_trace_route \<or> action opts = Options_route)
          \<and> map (openlr_edges X) (legs route) = map Inr oss"
  then show "route_references X route_json route opts =
                Inr (emplace route_json ''linear_references''
                       (json_array (map json_string (concat oss))))"
    using route_references_loop_all [of X "legs route" oss "[]"]
    by (auto simp: route_references_def)
next
  assume "route_references X route_json route opts = Inr route_json'
          \<and> route_json ''linear_references'' = None"
  then show "route_json' ''linear_references'' \<noteq> None \<longleftrightarrow>
                 linear_references opts \<and>
                 (action opts = Options_trace_route \<or> action opts = Options_route)"
    by (auto simp: route_references_def emplace_def split: if_splits sum.splits)
next
  assume "\<not> (linear_references (get_options api) \<and>
             (action (get_options api) = Options_trace_route \<or>
              action (get_options api) = Options_route))"
  then show "openlr X api route_index writer = Inr writer"
    by (auto simp: openlr_def)
next
  assume "linear_references (get_options api) \<and>
          (action (get_options api) = Options_trace_route \<or>
           action (get_options api) = Options_route)
          \<and> 0 \<le> route_index \<and> nat route_index < length (routes (get_trip api))
          \<and> map (openlr_edges X) (legs (routes (get_trip api) ! nat route_index)) = map Inr oss'"
  then show "openlr X api route_index writer =
                Inr (writer @ [Key ''linear_references'', StartArray]
                       @ map String (concat oss') @ [EndArray])"
    using openlr_legs_loop_all [of X "legs (routes (get_trip api) ! nat route_index)" oss'
        "writer @ [Key ''linear_references'', StartArray]"]
    by (auto simp: openlr_def start_array_def end_array_def)
next
  assume r: "openlr X api route_index writer = Inr writer'"
  show "Key ''linear_references'' \<in> set (drop (length writer) writer') \<longleftrightarrow>
                 linear_references (get_options api) \<and>
                 (action (get_options api) = Options_trace_route \<or>
                  action (get_options api) = Options_route)"
  proof (cases "linear_references (get_options api) \<and>
                 (action (get_options api) = Options_trace_route \<or>
                  action (get_options api) = Options_route)")
    case False
    with r have "writer' = writer" by (auto simp: openlr_def)
    with False show ?thesis by simp
  next
    case True
    with r obtain w where
      "openlr_legs_loop X (legs (routes (get_trip api) ! nat route_index))
         (writer @ [Key ''linear_references'', StartArray]) = Inr w" "writer' = w @ [EndArray]"
      by (auto simp: openlr_def start_array_def end_array_def Let_def split: if_splits sum.splits)
    with openlr_legs_loop_Inr [of X _ "writer @ [Key ''linear_references'', StartArray]" w]
    obtain strs where "writer' = writer @ [Key ''linear_references'', StartArray] @ map String strs @ [EndArray]"
      by auto
    with True show ?thesis by simp
  qed
qed

theorem linear_references_iff_requested_route_witness:
  "route_references sample_collaborators Map.empty \<lparr>legs = [sample_leg]\<rparr>
     (sample_options\<lparr>action := Options_trace_attributes\<rparr>) = Inr Map.empty
   \<and> route_references sample_collaborators Map.empty \<lparr>legs = [sample_leg]\<rparr>
       (sample_options\<lparr>action := Options_route\<rparr>)
       = Inr [''linear_references'' \<mapsto> json_array [json_string ''se'', json_string ''se'']]
   \<and> openlr sample_collaborators sample_request 0 [] = Inr []
   \<and> openlr sample_collaborators
       (sample_request\<lparr>options := Some (sample_options\<lparr>action := Options_trace_route\<rparr>)\<rparr>) 0 []
       = Inr [Key ''linear_references'', StartArray, String ''se'', String ''se'', EndArray]"
  using
    linear_references_iff_requested_route
      [where opts = "sample_options\<lparr>action := Options_trace_attributes\<rparr>"
         and X = sample_collaborators and route_json = Map.empty
         and route = "\<lparr>legs = [sample_leg]\<rparr>" and api = sample_request
         and route_index = 0 and writer = "[]"]
    linear_references_iff_requested_route
      [where opts = "sample_options\<lparr>action := Options_route\<rparr>"
         and X = sample_collaborators and route_json = Map.empty
         and route = "\<lparr>legs = [sample_leg]\<rparr>" and oss = "[[''se'', ''se'']]"
         and api = "sample_request\<lparr>options := Some (sample_options\<lparr>action := Options_trace_route\<rparr>)\<rparr>"
         and route_index = 0 and writer = "[]" and oss' = "[[''se'', ''se'']]"]
    sample_leg_openlrs
  by (simp add: sample_defs emplace_def get_options_def get_trip_def)

subsection \<open>Serialization to pbf\<close>

lemmas pbf_defs = serializePbf_def Let_def Swap_options_def mutable_options_def get_options_def
  get_pbf_field_selector_def has_pbf_field_selector_def get_info_def has_info_def
  default_Options_def default_PbfFieldSelector_def default_Info_def

text \<open>
  The call once the selection \<open>sel\<close> is known: the message that is serialized, and the
  request as either exit leaves it.
\<close>

lemma clear_unless:
  fixes r :: "('a, 'd, 's, 'm) Api"
  shows "(if \<not> c then r\<lparr>trip := None\<rparr> else r) = r\<lparr>trip := if c then trip r else None\<rparr>"
    and "(if \<not> c then r\<lparr>directions := None\<rparr> else r)
           = r\<lparr>directions := if c then directions r else None\<rparr>"
    and "(if \<not> c then r\<lparr>status := None\<rparr> else r) = r\<lparr>status := if c then status r else None\<rparr>"
    and "(if \<not> c then r\<lparr>options := None\<rparr> else r)
           = r\<lparr>options := if c then options r else None\<rparr>"
    and "(if \<not> c then r\<lparr>matrix := None\<rparr> else r) = r\<lparr>matrix := if c then matrix r else None\<rparr>"
  by simp_all

lemma serializePbf_selected:
  fixes request :: "('a, 'd, 's, 'm) Api"
  assumes "has_pbf_field_selector (get_options request) \<and> sel = get_pbf_field_selector (get_options request)
     \<or> \<not> has_pbf_field_selector (get_options request) \<and>
        (action (get_options request) \<in> {Options_route, Options_centroid,
            Options_optimized_route, Options_trace_route}
           \<and> sel = (get_pbf_field_selector (get_options request))\<lparr>sel_directions := True\<rparr>
         \<or> action (get_options request) = Options_trace_attributes
           \<and> sel = (get_pbf_field_selector (get_options request))\<lparr>sel_trip := True\<rparr>
         \<or> action (get_options request) = Options_status
           \<and> sel = (get_pbf_field_selector (get_options request))\<lparr>sel_status := True\<rparr>
         \<or> action (get_options request) = Options_sources_to_targets
           \<and> sel = (get_pbf_field_selector (get_options request))\<lparr>sel_matrix := True\<rparr>)"
  shows "serializePbf S request =
     (case S (request\<lparr>trip := if sel_trip sel then trip request else None,
                directions := if sel_directions sel then directions request else None,
                status := if sel_status sel then status request else None,
                options := if sel_options sel then options request else None,
                matrix := if sel_matrix sel then matrix request else None\<rparr>) of
        Inl err \<Rightarrow>
          (Inl err,
           request\<lparr>trip := if sel_trip sel then trip request else None,
                directions := if sel_directions sel then directions request else None,
                status := if sel_status sel then status request else None,
                options := if sel_options sel then options request else None,
                matrix := if sel_matrix sel then matrix request else None\<rparr>)
      | Inr bytes \<Rightarrow>
          (Inr bytes,
           request\<lparr>trip := if sel_trip sel then trip request else None,
                directions := if sel_directions sel then directions request else None,
                status := if sel_status sel then status request else None,
                matrix := if sel_matrix sel then matrix request else None,
                options := if sel_options sel then options request
                           else if has_info request \<and> is_service (get_info request)
                           then Some (get_options request) else None\<rparr>))"
proof -
  have so: "sel_options (get_pbf_field_selector (get_options request)) = sel_options sel"
    using assms by auto
  have inf: "(if \<not> has_pbf_field_selector (get_options request) then
               (case action (get_options request) of
                  Options_route \<Rightarrow> Inr ((get_pbf_field_selector (get_options request))\<lparr>sel_directions := True\<rparr>)
                | Options_centroid \<Rightarrow> Inr ((get_pbf_field_selector (get_options request))\<lparr>sel_directions := True\<rparr>)
                | Options_optimized_route \<Rightarrow> Inr ((get_pbf_field_selector (get_options request))\<lparr>sel_directions := True\<rparr>)
                | Options_trace_route \<Rightarrow> Inr ((get_pbf_field_selector (get_options request))\<lparr>sel_directions := True\<rparr>)
                | Options_trace_attributes \<Rightarrow> Inr ((get_pbf_field_selector (get_options request))\<lparr>sel_trip := True\<rparr>)
                | Options_status \<Rightarrow> Inr ((get_pbf_field_selector (get_options request))\<lparr>sel_status := True\<rparr>)
                | Options_sources_to_targets \<Rightarrow> Inr ((get_pbf_field_selector (get_options request))\<lparr>sel_matrix := True\<rparr>)
                | _ \<Rightarrow> Inl (logic_error ''Requested action is not yet serializable as pbf''))
             else Inr (get_pbf_field_selector (get_options request))) = Inr sel"
    using assms by auto
  have start: "serializePbf S request =
     (let skip_options =
            (\<not> sel_options sel \<and> has_info request \<and> is_service (get_info request));
          dummy = default_Options;
          (request, dummy) =
            (if skip_options then Swap_options request dummy else (request, dummy));
          request = request\<lparr>trip := if sel_trip sel then trip request else None\<rparr>;
          request = request\<lparr>directions := if sel_directions sel then directions request else None\<rparr>;
          request = request\<lparr>status := if sel_status sel then status request else None\<rparr>;
          request = request\<lparr>options := if sel_options sel then options request else None\<rparr>;
          request = request\<lparr>matrix := if sel_matrix sel then matrix request else None\<rparr>
      in case S request of
           Inl err \<Rightarrow> (Inl err, request)
         | Inr bytes \<Rightarrow>
             (let (request, dummy) =
                    (if skip_options then Swap_options request dummy else (request, dummy))
              in (Inr bytes, request)))"
    apply (simp only: serializePbf_def clear_unless)
    apply (subst Let_def)
    apply (subst Let_def)
    apply (simp only: inf sum.case so)
    done
  consider (keep) "sel_options sel"
    | (skip) "\<not> sel_options sel" "has_info request \<and> is_service (get_info request)"
    | (drop) "\<not> sel_options sel" "\<not> (has_info request \<and> is_service (get_info request))"
    by blast
  then show ?thesis
  proof cases
    case keep
    then show ?thesis
      unfolding start
      by (simp add: Let_def split: sum.splits split del: if_split cong: if_cong)
         (auto intro!: Api.equality)?
  next
    case skip
    then show ?thesis
      unfolding start
      by (simp add: Let_def Swap_options_def mutable_options_def get_options_def
          split: option.splits sum.splits split del: if_split cong: if_cong)
  next
    case drop
    then show ?thesis
      unfolding start
      by (simp add: Let_def split: sum.splits split del: if_split cong: if_cong)
         (auto intro!: Api.equality)?
  qed
qed

lemma fst_case_sum:
  "fst (case x of Inl err \<Rightarrow> (Inl err, a) | Inr bytes \<Rightarrow> (Inr bytes, b bytes)) = x"
  by (cases x) simp_all

lemma serializePbf_raises:
  fixes request :: "('a, 'd, 's, 'm) Api"
  assumes "\<not> has_pbf_field_selector (get_options request)"
    and "action (get_options request) \<notin> {Options_route, Options_centroid,
           Options_optimized_route, Options_trace_route, Options_trace_attributes,
           Options_status, Options_sources_to_targets}"
  shows "serializePbf S request =
     (Inl (logic_error ''Requested action is not yet serializable as pbf''), request)"
  using assms by (cases "action (get_options request)") (simp_all add: serializePbf_def Let_def)

lemma no_selector:
  "\<not> has_pbf_field_selector opts \<Longrightarrow> get_pbf_field_selector opts = default_PbfFieldSelector"
  by (simp add: has_pbf_field_selector_def get_pbf_field_selector_def)


text \<open>
  C6. Without an explicit field selector the selection follows from the action alone:
  route, centroid, optimized_route and trace_route keep the directions only,
  trace_attributes keeps the trip only, status keeps the status only and
  sources_to_targets keeps the matrix only. Of the five selectable parts (trip,
  directions, status, options, matrix) every other one is cleared in the message that is
  serialized; the info part, which the selector does not cover, stays. The outcome of the
  call is the outcome of \<open>SerializeAsString\<close> on that message.
\<close>

theorem serializePbf_infers_selection:
  fixes request :: "('a, 'd, 's, 'm) Api"
  assumes "\<not> has_pbf_field_selector (get_options request)"
  shows "(action (get_options request) \<in> {Options_route, Options_centroid,
            Options_optimized_route, Options_trace_route} \<longrightarrow>
          fst (serializePbf S request) =
            S (request\<lparr>trip := None, status := None, options := None, matrix := None\<rparr>))
    \<and> (action (get_options request) = Options_trace_attributes \<longrightarrow>
          fst (serializePbf S request) =
            S (request\<lparr>directions := None, status := None, options := None,
                 matrix := None\<rparr>))
    \<and> (action (get_options request) = Options_status \<longrightarrow>
          fst (serializePbf S request) =
            S (request\<lparr>trip := None, directions := None, options := None,
                 matrix := None\<rparr>))
    \<and> (action (get_options request) = Options_sources_to_targets \<longrightarrow>
          fst (serializePbf S request) =
            S (request\<lparr>trip := None, directions := None, status := None,
                 options := None\<rparr>))"
proof (intro conjI impI)
  assume "action (get_options request) \<in> {Options_route, Options_centroid,
            Options_optimized_route, Options_trace_route}"
  with assms show "fst (serializePbf S request) =
            S (request\<lparr>trip := None, status := None, options := None, matrix := None\<rparr>)"
    by (subst serializePbf_selected [where sel = "default_PbfFieldSelector\<lparr>sel_directions := True\<rparr>"])
       (simp_all add: no_selector fst_case_sum default_PbfFieldSelector_def)
next
  assume "action (get_options request) = Options_trace_attributes"
  with assms show "fst (serializePbf S request) =
            S (request\<lparr>directions := None, status := None, options := None,
                 matrix := None\<rparr>)"
    by (subst serializePbf_selected [where sel = "default_PbfFieldSelector\<lparr>sel_trip := True\<rparr>"])
       (simp_all add: no_selector fst_case_sum default_PbfFieldSelector_def)
next
  assume "action (get_options request) = Options_status"
  with assms show "fst (serializePbf S request) =
            S (request\<lparr>trip := None, directions := None, options := None,
                 matrix := None\<rparr>)"
    by (subst serializePbf_selected [where sel = "default_PbfFieldSelector\<lparr>sel_status := True\<rparr>"])
       (simp_all add: no_selector fst_case_sum default_PbfFieldSelector_def)
next
  assume "action (get_options request) = Options_sources_to_targets"
  with assms show "fst (serializePbf S request) =
            S (request\<lparr>trip := None, directions := None, status := None,
                 options := None\<rparr>)"
    by (subst serializePbf_selected [where sel = "default_PbfFieldSelector\<lparr>sel_matrix := True\<rparr>"])
       (simp_all add: no_selector fst_case_sum default_PbfFieldSelector_def)
qed

theorem serializePbf_infers_selection_witness:
  "\<not> has_pbf_field_selector (get_options sample_request)
   \<and> fst (serializePbf sample_SerializeAsString sample_request) = Inr ''SI''
   \<and> fst (serializePbf sample_SerializeAsString
        (sample_request\<lparr>options := Some (sample_options\<lparr>action := Options_sources_to_targets\<rparr>)\<rparr>))
       = Inr ''MI''
   \<and> fst (serializePbf sample_SerializeAsString
        (sample_request\<lparr>options := Some (sample_options\<lparr>action := Options_trace_attributes\<rparr>)\<rparr>))
       = Inr ''TI''
   \<and> fst (serializePbf sample_SerializeAsString
        (sample_request\<lparr>options := Some (sample_options\<lparr>action := Options_centroid\<rparr>)\<rparr>))
       = Inr ''DI''"
  using
    serializePbf_infers_selection [of sample_request sample_SerializeAsString]
    serializePbf_infers_selection
      [of "sample_request\<lparr>options := Some (sample_options\<lparr>action := Options_sources_to_targets\<rparr>)\<rparr>"
          sample_SerializeAsString]
    serializePbf_infers_selection
      [of "sample_request\<lparr>options := Some (sample_options\<lparr>action := Options_trace_attributes\<rparr>)\<rparr>"
          sample_SerializeAsString]
    serializePbf_infers_selection
      [of "sample_request\<lparr>options := Some (sample_options\<lparr>action := Options_centroid\<rparr>)\<rparr>"
          sample_SerializeAsString]
  by (simp add: sample_defs get_options_def has_pbf_field_selector_def)

text \<open>
  C7. With an explicit field selector \<open>serializePbf\<close> serializes a request whatever
  its action is, so the claim does not hold for every call: the request below has an
  action outside the seven that the function names and is serialized.
\<close>

theorem serializePbf_unsupported_action_counterexample:
  "action (get_options
     (sample_request\<lparr>options := Some (sample_options\<lparr>action := Options_other 2,
        pbf_field_selector := Some sample_selector\<rparr>)\<rparr>)) = Options_other 2
   \<and> fst (serializePbf sample_SerializeAsString
        (sample_request\<lparr>options := Some (sample_options\<lparr>action := Options_other 2,
           pbf_field_selector := Some sample_selector\<rparr>)\<rparr>)) = Inr ''TI''"
  by (simp add: sample_defs pbf_defs)

text \<open>
  C7, as amended. Without an explicit field selector, a request whose action is none of
  route, centroid, optimized_route, trace_route, trace_attributes, status and
  sources_to_targets raises the logic error; no bytes are returned and the request is
  left as it was.
\<close>

theorem serializePbf_unsupported_action:
  fixes request :: "('a, 'd, 's, 'm) Api"
  assumes "\<not> has_pbf_field_selector (get_options request)"
    and "action (get_options request) \<notin> {Options_route, Options_centroid,
           Options_optimized_route, Options_trace_route, Options_trace_attributes,
           Options_status, Options_sources_to_targets}"
  shows "serializePbf S request =
     (Inl (logic_error ''Requested action is not yet serializable as pbf''), request)"
  using assms by (rule serializePbf_raises)

theorem serializePbf_unsupported_action_witness:
  "\<not> has_pbf_field_selector
       (get_options (sample_request\<lparr>options := Some (sample_options\<lparr>action := Options_other 2\<rparr>)\<rparr>))
   \<and> serializePbf sample_SerializeAsString
       (sample_request\<lparr>options := Some (sample_options\<lparr>action := Options_other 2\<rparr>)\<rparr>)
     = (Inl (logic_error ''Requested action is not yet serializable as pbf''),
        sample_request\<lparr>options := Some (sample_options\<lparr>action := Options_other 2\<rparr>)\<rparr>)"
  using serializePbf_unsupported_action
    [of "sample_request\<lparr>options := Some (sample_options\<lparr>action := Options_other 2\<rparr>)\<rparr>"
        sample_SerializeAsString]
  by (simp add: sample_defs get_options_def has_pbf_field_selector_def)




text \<open>
  C10. With an explicit field selector the action plays no part and the unsupported-action
  error is never raised: for every action the outcome of the call is the outcome of
  \<open>SerializeAsString\<close> on the request with each of trip, directions, status, options
  and matrix kept exactly where the selector of the caller selects it; where that gives
  bytes, the call returns these bytes.
\<close>

theorem serializePbf_explicit_selector:
  fixes request :: "('a, 'd, 's, 'm) Api"
  assumes "pbf_field_selector (get_options request) = Some sel"
  shows "fst (serializePbf S request) =
     S (request\<lparr>trip := if sel_trip sel then trip request else None,
                directions := if sel_directions sel then directions request else None,
                status := if sel_status sel then status request else None,
                options := if sel_options sel then options request else None,
                matrix := if sel_matrix sel then matrix request else None\<rparr>)"
  using assms
  by (subst serializePbf_selected [where sel = sel])
     (simp_all add: fst_case_sum has_pbf_field_selector_def get_pbf_field_selector_def)

theorem serializePbf_explicit_selector_witness:
  "pbf_field_selector (get_options
     (sample_request\<lparr>options := Some (sample_options\<lparr>action := Options_no_action,
        pbf_field_selector := Some (sample_selector\<lparr>sel_options := True\<rparr>)\<rparr>)\<rparr>))
     = Some (sample_selector\<lparr>sel_options := True\<rparr>)
   \<and> fst (serializePbf sample_SerializeAsString
        (sample_request\<lparr>options := Some (sample_options\<lparr>action := Options_no_action,
           pbf_field_selector := Some (sample_selector\<lparr>sel_options := True\<rparr>)\<rparr>)\<rparr>)) = Inr ''OTI''"
  using serializePbf_explicit_selector
    [of "sample_request\<lparr>options := Some (sample_options\<lparr>action := Options_no_action,
           pbf_field_selector := Some (sample_selector\<lparr>sel_options := True\<rparr>)\<rparr>)\<rparr>"
        "sample_selector\<lparr>sel_options := True\<rparr>" sample_SerializeAsString]
  by (simp add: sample_defs get_options_def)

end
